theory Spec2Isabelle
  imports Main
begin

section \<open>The values that cross the pool's interface\<close>

text \<open>
  The pool of \<^verbatim>\<open>src/connection-pool.js\<close> treats resources as opaque objects and compares
  them with \<^verbatim>\<open>===\<close>. A resource object is a handle \<open>Resource n\<close>. The wrapper objects
  \<^verbatim>\<open>{connection, timeout}\<close> that \<^verbatim>\<open>release\<close> allocates are values as well (the
  dispatcher hands them to consumers), so they belong to the same universe; \<open>eid\<close> is the
  identity of the allocated wrapper. With fresh identities, HOL equality on these values is
  JavaScript's strict equality.
\<close>

datatype jsval = Undefined | Null | Resource nat | ErrorObj nat | Str string | EntryObj entry
  and entry = Entry (eid: nat) (connection: jsval) (timeout: int)

fun truthy :: "jsval \<Rightarrow> bool" where
  "truthy Undefined = False"
| "truthy Null = False"
| "truthy (Resource n) = True"
| "truthy (ErrorObj n) = True"
| "truthy (Str s) = (s \<noteq> [])"
| "truthy (EntryObj e) = True"

fun isError :: "jsval \<Rightarrow> bool" where
  "isError (ErrorObj n) = True"
| "isError v = False"

text \<open>
  The two shapes of completion sink: an object with \<^verbatim>\<open>onNext\<close>, \<^verbatim>\<open>onError\<close> and
  \<^verbatim>\<open>onCompleted\<close>, and a plain function (which has none of these properties).
\<close>

datatype observer = Observer nat | Function nat

datatype js_error = TypeError | ReferenceError

datatype 'a completion = Returned 'a | Threw js_error

text \<open>What the pool does to its collaborators, in order.\<close>

datatype effect =
    OnNext nat jsval
  | OnCompleted nat
  | OnError nat jsval
  | Invoke nat "jsval list"
  | FactoryCreate
  | FactoryDestroy jsval

section \<open>Options\<close>

record opts =
  opts_idleTimeoutMillis :: "int option"
  opts_reapInterval :: "int option"
  opts_refreshIdle :: "bool option"
  opts_returnToHead :: "bool option"
  opts_validate :: "(jsval \<Rightarrow> bool) option"
  opts_priorityRange :: "int option"
  opts_max :: "int option"
  opts_min :: "int option"

record options =
  idleTimeoutMillis :: int
  reapInterval :: int
  refreshIdle :: bool
  returnToHead :: bool
  validate :: "jsval \<Rightarrow> bool"
  priorityRange :: int
  max_opt :: int
  min_opt :: int

text \<open>\<^verbatim>\<open>x || d\<close> on a number: \<open>d\<close> when \<open>x\<close> is absent or zero.\<close>

definition or_default :: "int option \<Rightarrow> int \<Rightarrow> int" where
  "or_default x d = (case x of None \<Rightarrow> d | Some v \<Rightarrow> if v = 0 then d else v)"

text \<open>
  Lines 5 to 15. The default \<^verbatim>\<open>validate\<close> is \<^verbatim>\<open>() => {}\<close>, which returns
  \<^verbatim>\<open>undefined\<close>; the field holds the truth value the dispatcher tests.
\<close>

definition mk_options :: "opts \<Rightarrow> options" where
  "mk_options raw =
     (let mx = max (case opts_max raw of None \<Rightarrow> 1 | Some v \<Rightarrow> v) 1;
          mn = (case opts_min raw of None \<Rightarrow> 0 | Some v \<Rightarrow> v)
      in \<lparr> idleTimeoutMillis = or_default (opts_idleTimeoutMillis raw) 30000,
           reapInterval = or_default (opts_reapInterval raw) 1000,
           refreshIdle = (case opts_refreshIdle raw of None \<Rightarrow> True | Some b \<Rightarrow> b),
           returnToHead = (case opts_returnToHead raw of None \<Rightarrow> False | Some b \<Rightarrow> b),
           validate = (case opts_validate raw of None \<Rightarrow> (\<lambda>c. truthy Undefined) | Some f \<Rightarrow> f),
           priorityRange = or_default (opts_priorityRange raw) 10,
           max_opt = mx,
           min_opt = min mn (mx - 1) \<rparr>)"

definition no_opts :: opts where
  "no_opts = \<lparr> opts_idleTimeoutMillis = None, opts_reapInterval = None,
               opts_refreshIdle = None, opts_returnToHead = None, opts_validate = None,
               opts_priorityRange = None, opts_max = None, opts_min = None \<rparr>"

section \<open>The wait queue\<close>

text \<open>Lines 326 to 336, on the priorities of two queue elements; a number is truthy when non-zero.\<close>

definition priorityComparator :: "observer \<times> int \<Rightarrow> observer \<times> int \<Rightarrow> int" where
  "priorityComparator e1 e2 =
     (if snd e1 = 0 \<and> snd e2 = 0 then 0
      else if snd e1 \<noteq> 0 \<and> snd e2 = 0 then - 1
      else if snd e2 \<noteq> 0 \<and> snd e1 = 0 then 1
      else snd e2 - snd e1)"

text \<open>
  Modelled from the spec: the \<^verbatim>\<open>PriorityQueue\<close> of the package
  \<^verbatim>\<open>mangabi-datastructures\<close> is not part of the sources. The spec's Wait Queue "holds
  pending acquisition requests ordered by priority, FIFO within same priority". The queue
  is kept in service order; a new element goes in front of the first element that the
  comparator ranks strictly after it (a positive result, which for the comparator above
  means a smaller priority number), and so behind every element of equal rank.
\<close>

fun enqueue :: "observer \<Rightarrow> int \<Rightarrow> (observer \<times> int) list \<Rightarrow> (observer \<times> int) list" where
  "enqueue ob p [] = [(ob, p)]"
| "enqueue ob p (e # q) =
     (if priorityComparator (ob, p) e > 0 then (ob, p) # e # q else e # enqueue ob p q)"

section \<open>The pool\<close>

text \<open>
  The closure variables of \<^verbatim>\<open>Pool\<close> (lines 19 to 27), and what the runtime holds for
  it: \<open>removeIdleTimer\<close> tells whether the timeout behind the stored handle is still
  pending, \<open>creating\<close> counts the Factory creations whose handler has not been called yet,
  \<open>nextTicks\<close> the deferred dispatches, \<open>drainChecks\<close> the pending polls of \<^verbatim>\<open>drain\<close>,
  \<open>nextEntry\<close> is the identity of the next wrapper object, and \<open>trace\<close> records the calls
  made to the Factory and to the sinks.

  The Factory is asynchronous (its handler runs in a later turn), and neither the Factory,
  nor \<^verbatim>\<open>validate\<close>, nor a sink throws or calls back into the pool while the pool runs.
\<close>

record pool =
  availableConnections :: "entry list"
  waitingClients :: "(observer \<times> int) list"
  totalConnections :: int
  removeIdleScheduled :: bool
  removeIdleTimer :: bool
  draining :: bool
  creating :: nat
  nextTicks :: nat
  drainChecks :: "observer option list"
  nextEntry :: nat
  trace :: "effect list"

definition emit :: "effect list \<Rightarrow> pool \<Rightarrow> pool" where
  "emit es s = s\<lparr> trace := trace s @ es \<rparr>"

text \<open>Lines 264 to 266: the count goes up before the Factory is asked.\<close>

definition createResource :: "pool \<Rightarrow> pool" where
  "createResource s =
     emit [FactoryCreate] (s\<lparr> totalConnections := totalConnections s + 1, creating := Suc (creating s) \<rparr>)"

text \<open>Lines 304 to 308.\<close>

definition ensureMinimum :: "options \<Rightarrow> pool \<Rightarrow> pool" where
  "ensureMinimum opt s =
     (if \<not> draining s \<and> totalConnections s < min_opt opt
      then (createResource ^^ nat (min_opt opt - totalConnections s)) s
      else s)"

text \<open>
  Lines 61 to 66. \<^verbatim>\<open>_.remove\<close> deletes the elements of the list that are identical to
  the argument: the predicate compares the wrapper object itself with it.
\<close>

definition destroy :: "options \<Rightarrow> jsval \<Rightarrow> pool \<Rightarrow> pool" where
  "destroy opt c s =
     ensureMinimum opt
       (emit [FactoryDestroy c]
          (s\<lparr> totalConnections := totalConnections s - 1,
              availableConnections := filter (\<lambda>e. EntryObj e \<noteq> c) (availableConnections s) \<rparr>))"

text \<open>Lines 219 to 224.\<close>

definition scheduleRemoveIdle :: "pool \<Rightarrow> pool" where
  "scheduleRemoveIdle s =
     (if \<not> removeIdleScheduled s
      then s\<lparr> removeIdleScheduled := True, removeIdleTimer := True \<rparr>
      else s)"

text \<open>
  Lines 238 to 244: \<^verbatim>\<open>_.find\<close> walks the indices below the length the array had when
  the walk began. The predicate destroys a rejected resource on the way; when that has
  shortened the array, a later index reads \<^verbatim>\<open>undefined\<close>, whose \<^verbatim>\<open>connection\<close>
  property cannot be read.
\<close>

function find_valid :: "options \<Rightarrow> nat \<Rightarrow> nat \<Rightarrow> pool \<Rightarrow> entry option completion \<times> pool" where
  "find_valid opt idx len s =
     (if idx < len then
        (if idx < length (availableConnections s) then
           (let e = availableConnections s ! idx in
            if \<not> validate opt (connection e)
            then find_valid opt (Suc idx) len (destroy opt (connection e) s)
            else (Returned (Some e), s))
         else (Threw TypeError, s))
      else (Returned None, s))"
  by pat_completeness auto
termination
  by (relation "measure (\<lambda>(opt, idx, len, s). len - idx)") auto

declare find_valid.simps [simp del]

text \<open>Lines 250 to 255: a value handed to a sink.\<close>

definition deliver :: "observer \<Rightarrow> jsval \<Rightarrow> pool \<Rightarrow> pool" where
  "deliver ob v s =
     (case ob of
        Observer i \<Rightarrow> emit [OnNext i v, OnCompleted i] s
      | Function f \<Rightarrow> emit [Invoke f [Null, v]] s)"

text \<open>
  Lines 236 to 262. \<^verbatim>\<open>shift\<close> drops the head of the list. The queue cannot be empty at
  the \<^verbatim>\<open>dequeue\<close>, since the scan does not touch it; the branch for an empty queue is the
  call of \<^verbatim>\<open>onNext\<close> on no observer.
\<close>

definition dispense :: "options \<Rightarrow> pool \<Rightarrow> unit completion \<times> pool" where
  "dispense opt s =
     (if length (waitingClients s) > 0 then
        (case find_valid opt 0 (length (availableConnections s)) s of
           (Threw x, s1) \<Rightarrow> (Threw x, s1)
         | (Returned None, s1) \<Rightarrow>
             (Returned (), if totalConnections s1 < max_opt opt then createResource s1 else s1)
         | (Returned (Some validClient), s1) \<Rightarrow>
             (case waitingClients s1 of
                [] \<Rightarrow> (Threw TypeError, s1\<lparr> availableConnections := tl (availableConnections s1) \<rparr>)
              | w # q \<Rightarrow>
                  (let s2 = deliver (fst w) (EntryObj validClient)
                              (s1\<lparr> availableConnections := tl (availableConnections s1),
                                   waitingClients := q \<rparr>)
                   in (Returned (), if totalConnections s2 < max_opt opt then createResource s2 else s2))))
      else (Returned (), s))"

text \<open>Lines 74 to 92; \<open>now\<close> is what \<^verbatim>\<open>Date.now()\<close> returns.\<close>

definition release :: "options \<Rightarrow> jsval \<Rightarrow> int \<Rightarrow> pool \<Rightarrow> unit completion \<times> pool" where
  "release opt c now s =
     (if list_ex (\<lambda>e. connection e = c) (availableConnections s) then (Returned (), s)
      else
        (let connectionWithTimeout = Entry (nextEntry s) c (now + idleTimeoutMillis opt);
             s1 = s\<lparr> availableConnections :=
                       (if returnToHead opt then connectionWithTimeout # availableConnections s
                        else availableConnections s @ [connectionWithTimeout]),
                     nextEntry := Suc (nextEntry s) \<rparr>
         in case dispense opt s1 of
              (Threw x, s2) \<Rightarrow> (Threw x, s2)
            | (Returned u, s2) \<Rightarrow> (Returned (), scheduleRemoveIdle s2)))"

text \<open>
  Lines 43 to 50. An absent priority is \<^verbatim>\<open>Math.floor(priorityRange / 2)\<close>. In the
  draining branch a plain function has no \<^verbatim>\<open>onError\<close> to call. The result is the hint
  \<^verbatim>\<open>totalConnections < max\<close>, or whatever the sink returned in the draining branch.
\<close>

definition acquire :: "options \<Rightarrow> observer \<Rightarrow> int option \<Rightarrow> pool \<Rightarrow> bool option completion \<times> pool" where
  "acquire opt ob prio s =
     (if draining s then
        (case ob of
           Observer i \<Rightarrow> (Returned None, emit [OnError i (Str ''pool is draining and cannot accept work'')] s)
         | Function f \<Rightarrow> (Threw TypeError, s))
      else
        (let priority = (case prio of None \<Rightarrow> priorityRange opt div 2 | Some p \<Rightarrow> p);
             s1 = s\<lparr> waitingClients :=
                       enqueue ob (max (min priority 0) (priorityRange opt)) (waitingClients s) \<rparr>
         in case dispense opt s1 of
              (Threw x, s2) \<Rightarrow> (Threw x, s2)
            | (Returned u, s2) \<Rightarrow> (Returned (Some (totalConnections s2 < max_opt opt)), s2)))"

text \<open>
  Lines 267 to 274: the handler given to the Factory reads an error and a connection
  from its arguments \<open>args\<close>.
\<close>

definition handlerErr :: "jsval list \<Rightarrow> jsval" where
  "handlerErr args =
     (let arg0 = (case args of [] \<Rightarrow> Undefined | a # r \<Rightarrow> a)
      in if length args > 1 then arg0 else if isError arg0 then arg0 else Null)"

definition handlerConnection :: "jsval list \<Rightarrow> jsval" where
  "handlerConnection args =
     (let arg0 = (case args of [] \<Rightarrow> Undefined | a # r \<Rightarrow> a)
      in if length args > 1 then args ! 1 else if isError arg0 then Null else arg0)"

text \<open>
  Lines 276 to 300, the rest of the handler. An error with nobody waiting falls through
  to the last branch, which releases \<open>connection\<close>.
\<close>

definition createHandler :: "options \<Rightarrow> jsval list \<Rightarrow> int \<Rightarrow> pool \<Rightarrow> unit completion \<times> pool" where
  "createHandler opt args now s =
     (let err = handlerErr args;
          connection = handlerConnection args;
          observer = (case waitingClients s of [] \<Rightarrow> None | w # q \<Rightarrow> Some (fst w));
          s1 = s\<lparr> waitingClients := tl (waitingClients s) \<rparr>;
          s2 = (if truthy err
                then s1\<lparr> totalConnections := max (totalConnections s1 - 1) 0,
                         nextTicks := Suc (nextTicks s1) \<rparr>
                else s1)
      in case observer of
           Some (Observer i) \<Rightarrow>
             (Returned (),
              if truthy err then emit [OnError i err] s2
              else emit [OnNext i connection, OnCompleted i] s2)
         | Some (Function f) \<Rightarrow>
             (Returned (),
              if truthy err then emit [Invoke f [err]] s2
              else emit [Invoke f [Null, connection]] s2)
         | None \<Rightarrow> release opt connection now s2)"

text \<open>Lines 198 to 212: the connections the sweep passes to \<^verbatim>\<open>destroy\<close>, in order.\<close>

definition idleConnections :: "options \<Rightarrow> int \<Rightarrow> pool \<Rightarrow> jsval list" where
  "idleConnections opt now s =
     map (\<lambda>(idx, connectionWithTimeout). connection connectionWithTimeout)
       (filter (\<lambda>(idx, connectionWithTimeout).
                  if totalConnections s - min_opt opt < int idx then False
                  else now > timeout connectionWithTimeout)
          (enumerate 0 (availableConnections s)))"

definition removeIdle :: "options \<Rightarrow> int \<Rightarrow> pool \<Rightarrow> pool" where
  "removeIdle opt now s =
     (let s0 = s\<lparr> removeIdleScheduled := False \<rparr> in
      if \<not> refreshIdle opt then s0
      else
        (let s1 = fold (destroy opt) (idleConnections opt now s0) s0
         in if length (availableConnections s1) > 0 then scheduleRemoveIdle s1 else s1))"

text \<open>Lines 114 to 118 and 144 to 148: the optional sink of \<^verbatim>\<open>drain\<close> and \<^verbatim>\<open>destroyAllNow\<close>.\<close>

definition signal :: "observer option \<Rightarrow> pool \<Rightarrow> pool" where
  "signal ob s =
     (case ob of
        None \<Rightarrow> s
      | Some (Observer i) \<Rightarrow> emit [OnCompleted i] s
      | Some (Function f) \<Rightarrow> emit [Invoke f []] s)"

text \<open>Lines 108 to 120; a poll that finds work left asks to be run again.\<close>

definition check :: "observer option \<Rightarrow> pool \<Rightarrow> pool" where
  "check ob s =
     (if length (waitingClients s) > 0 then s\<lparr> drainChecks := drainChecks s @ [ob] \<rparr>
      else if int (length (availableConnections s)) \<noteq> totalConnections s
      then s\<lparr> drainChecks := drainChecks s @ [ob] \<rparr>
      else signal ob s)"

definition drain :: "observer option \<Rightarrow> pool \<Rightarrow> pool" where
  "drain ob s = check ob (s\<lparr> draining := True \<rparr>)"

text \<open>
  Lines 137 to 149. \<^verbatim>\<open>_.remove\<close> calls its predicate on the first element of a
  non-empty list, and the predicate calls \<^verbatim>\<open>connectionWithT\<close>, a name that is declared
  nowhere. On an empty list the predicate is not called.
\<close>

definition destroyAllNow :: "observer option \<Rightarrow> pool \<Rightarrow> unit completion \<times> pool" where
  "destroyAllNow ob s =
     (case availableConnections s of
        connectionWithTimeout # rest \<Rightarrow> (Threw ReferenceError, s)
      | [] \<Rightarrow> (Returned (), signal ob (s\<lparr> removeIdleScheduled := False, removeIdleTimer := False \<rparr>)))"

text \<open>Lines 175 to 193. An array has no \<^verbatim>\<open>size\<close> method; the queue has one.\<close>

definition poolSize :: "pool \<Rightarrow> int completion" where
  "poolSize s = Returned (totalConnections s)"

definition availableConnectionsCount :: "pool \<Rightarrow> int completion" where
  "availableConnectionsCount s = Threw TypeError"

definition waitingClientsCount :: "pool \<Rightarrow> int completion" where
  "waitingClientsCount s = Returned (int (length (waitingClients s)))"

definition maxPoolSize :: "options \<Rightarrow> pool \<Rightarrow> int completion" where
  "maxPoolSize opt s = Returned (max_opt opt)"

text \<open>Lines 19 to 31: a new pool.\<close>

definition Pool :: "opts \<Rightarrow> pool" where
  "Pool raw =
     ensureMinimum (mk_options raw)
       \<lparr> availableConnections = [], waitingClients = [], totalConnections = 0,
         removeIdleScheduled = False, removeIdleTimer = False, draining = False,
         creating = 0, nextTicks = 0, drainChecks = [], nextEntry = 0, trace = [] \<rparr>"

section \<open>Runs of the pool\<close>

text \<open>
  What can happen to a pool: a call of its interface, or the runtime calling back (the
  Factory's handler, the deferred dispatch, the reaper's timer, a poll of \<^verbatim>\<open>drain\<close>).
  A callback that is not pending does not happen. The state after a call that threw is
  the state at the throw.
\<close>

datatype op =
    Acquire observer "int option"
  | Release jsval int
  | Destroy jsval
  | Drain "observer option"
  | DestroyAllNow "observer option"
  | Created "jsval list" int
  | NextTick
  | Reap int
  | DrainCheck

fun exec :: "options \<Rightarrow> op \<Rightarrow> pool \<Rightarrow> pool" where
  "exec opt (Acquire ob prio) s = snd (acquire opt ob prio s)"
| "exec opt (Release c now) s = snd (release opt c now s)"
| "exec opt (Destroy c) s = destroy opt c s"
| "exec opt (Drain ob) s = drain ob s"
| "exec opt (DestroyAllNow ob) s = snd (destroyAllNow ob s)"
| "exec opt (Created args now) s =
     (if creating s > 0 then snd (createHandler opt args now (s\<lparr> creating := creating s - 1 \<rparr>)) else s)"
| "exec opt NextTick s =
     (if nextTicks s > 0 then snd (dispense opt (s\<lparr> nextTicks := nextTicks s - 1 \<rparr>)) else s)"
| "exec opt (Reap now) s =
     (if removeIdleTimer s then removeIdle opt now (s\<lparr> removeIdleTimer := False \<rparr>) else s)"
| "exec opt DrainCheck s =
     (case drainChecks s of [] \<Rightarrow> s | ob # rest \<Rightarrow> check ob (s\<lparr> drainChecks := rest \<rparr>))"

definition run :: "options \<Rightarrow> op list \<Rightarrow> pool \<Rightarrow> pool" where
  "run opt ops s = fold (exec opt) ops s"

section \<open>What a run has done\<close>

text \<open>
  Read off the trace: how many creations the Factory has been asked for, and the values
  passed to the Factory's destroy operation, in order.
\<close>

definition requested :: "pool \<Rightarrow> nat" where
  "requested s = length (filter (\<lambda>e. e = FactoryCreate) (trace s))"

definition destroyed :: "pool \<Rightarrow> jsval list" where
  "destroyed s = concat (map (\<lambda>e. case e of FactoryDestroy c \<Rightarrow> [c] | _ \<Rightarrow> []) (trace s))"

text \<open>The number of times the handler of a pending creation was called without an error.\<close>

fun succeeded :: "options \<Rightarrow> op list \<Rightarrow> pool \<Rightarrow> nat" where
  "succeeded opt [] s = 0"
| "succeeded opt (x # xs) s =
     (case x of
        Created args now \<Rightarrow> (if creating s > 0 \<and> \<not> truthy (handlerErr args) then 1 else 0)
      | _ \<Rightarrow> 0)
     + succeeded opt xs (exec opt x s)"

definition bounded :: "options \<Rightarrow> pool \<Rightarrow> bool" where
  "bounded opt s = (totalConnections s \<le> max_opt opt \<and> totalConnections s \<le> int (requested s))"

text \<open>
  The count of resources is at most \<open>k\<close> plus the creations still in flight; \<open>k\<close> stands
  for the creations that have succeeded so far.
\<close>

definition within :: "nat \<Rightarrow> pool \<Rightarrow> bool" where
  "within k s = (totalConnections s \<le> int k + int (creating s))"

definition always :: "jsval \<Rightarrow> bool" where
  "always c = True"

text \<open>No connection is held by two entries of the list of available connections.\<close>

definition unique :: "pool \<Rightarrow> bool" where
  "unique s = distinct (map connection (availableConnections s))"

section \<open>Some pools\<close>

text \<open>
  Configurations: every option left out; \<^verbatim>\<open>validate\<close> accepting everything, with
  \<^verbatim>\<open>max\<close> 1 and 2; \<^verbatim>\<open>validate\<close> accepting only the resource 2; and \<^verbatim>\<open>min\<close> 1 of
  \<^verbatim>\<open>max\<close> 2.
\<close>

definition one_opts :: opts where
  "one_opts = no_opts\<lparr> opts_validate := Some always \<rparr>"

definition two_opts :: opts where
  "two_opts = no_opts\<lparr> opts_validate := Some always, opts_max := Some 2 \<rparr>"

definition second_only :: "jsval \<Rightarrow> bool" where
  "second_only c = (c = Resource 2)"

definition picky_opts :: opts where
  "picky_opts = no_opts\<lparr> opts_validate := Some second_only, opts_max := Some 2 \<rparr>"

definition floor_opts :: opts where
  "floor_opts = no_opts\<lparr> opts_validate := Some always, opts_max := Some 2, opts_min := Some 1 \<rparr>"

text \<open>Two consumers acquire, and the Factory answers \<^verbatim>\<open>(null, connection)\<close> twice.\<close>

definition two_out :: "op list" where
  "two_out = [Acquire (Observer 1) None, Acquire (Observer 2) None,
              Created [Null, Resource 1] 0, Created [Null, Resource 2] 0]"

text \<open>Then the first resource, or both, come back at time 0.\<close>

definition one_idle :: pool where
  "one_idle = run (mk_options two_opts) (two_out @ [Release (Resource 1) 0]) (Pool two_opts)"

definition two_idle :: pool where
  "two_idle = run (mk_options two_opts)
     (two_out @ [Release (Resource 1) 0, Release (Resource 2) 0]) (Pool two_opts)"

definition two_idle_picky :: pool where
  "two_idle_picky = run (mk_options picky_opts)
     (two_out @ [Release (Resource 1) 0, Release (Resource 2) 0]) (Pool picky_opts)"

text \<open>The same with the default options and a single resource.\<close>

definition default_idle :: pool where
  "default_idle = run (mk_options no_opts)
     [Acquire (Observer 1) None, Created [Null, Resource 1] 0, Release (Resource 1) 0]
     (Pool no_opts)"

text \<open>
  The only resource of a pool is checked out; a request of priority 5 arrives, then one of
  priority 1.
\<close>

definition two_waiting :: pool where
  "two_waiting = run (mk_options one_opts)
     [Acquire (Observer 0) None, Created [Null, Resource 1] 0,
      Acquire (Observer 1) (Some 5), Acquire (Observer 2) (Some 1)] (Pool one_opts)"

text \<open>A new pool after \<^verbatim>\<open>drain()\<close>.\<close>

definition drained :: pool where
  "drained = run (mk_options no_opts) [Drain None] (Pool no_opts)"

text \<open>A pool with \<^verbatim>\<open>min\<close> 1 that holds two idle resources and is draining.\<close>

definition draining_floor :: pool where
  "draining_floor = run (mk_options floor_opts)
     [Acquire (Observer 1) None, Created [Null, Resource 1] 0, Created [Null, Resource 2] 0,
      Release (Resource 1) 0, Drain None] (Pool floor_opts)"

text \<open>
  With the default options: a resource is created, handed out and released; two more
  requests arrive, and the Factory fails three times.
\<close>

definition failing_factory :: "op list" where
  "failing_factory =
     [Acquire (Observer 1) None, Created [Null, Resource 1] 0, Release (Resource 1) 0,
      Acquire (Observer 2) None, Created [ErrorObj 1] 0,
      Acquire (Observer 3) None, Created [ErrorObj 2] 0, Created [ErrorObj 3] 0]"

section \<open>How the operations change the fields\<close>

lemma emit_fields [simp]:
  "availableConnections (emit es s) = availableConnections s"
  "waitingClients (emit es s) = waitingClients s"
  "totalConnections (emit es s) = totalConnections s"
  "draining (emit es s) = draining s"
  "trace (emit es s) = trace s @ es"
  by (simp_all add: emit_def)

lemma createResource_fields [simp]:
  "availableConnections (createResource s) = availableConnections s"
  "waitingClients (createResource s) = waitingClients s"
  "totalConnections (createResource s) = totalConnections s + 1"
  "draining (createResource s) = draining s"
  "trace (createResource s) = trace s @ [FactoryCreate]"
  by (simp_all add: createResource_def)

lemma createResource_pow_fields [simp]:
  "availableConnections ((createResource ^^ n) s) = availableConnections s"
  "waitingClients ((createResource ^^ n) s) = waitingClients s"
  "totalConnections ((createResource ^^ n) s) = totalConnections s + int n"
  "draining ((createResource ^^ n) s) = draining s"
  "trace ((createResource ^^ n) s) = trace s @ replicate n FactoryCreate"
  by (induction n) (simp_all add: replicate_append_same)

lemma ensureMinimum_fields [simp]:
  "availableConnections (ensureMinimum opt s) = availableConnections s"
  "waitingClients (ensureMinimum opt s) = waitingClients s"
  "draining (ensureMinimum opt s) = draining s"
  by (simp_all add: ensureMinimum_def)

lemma destroy_fields [simp]:
  "availableConnections (destroy opt c s) = filter (\<lambda>e. EntryObj e \<noteq> c) (availableConnections s)"
  "waitingClients (destroy opt c s) = waitingClients s"
  "draining (destroy opt c s) = draining s"
  by (simp_all add: destroy_def)

lemma requested_append [simp]:
  "requested (emit es s) = requested s + length (filter (\<lambda>e. e = FactoryCreate) es)"
  by (simp add: requested_def)

lemma requested_createResource [simp]: "requested (createResource s) = Suc (requested s)"
  by (simp add: requested_def)

lemma requested_pow [simp]: "requested ((createResource ^^ n) s) = requested s + n"
  by (induction n) simp_all

lemma bounded_createResource:
  "bounded opt s \<Longrightarrow> totalConnections s < max_opt opt \<Longrightarrow> bounded opt (createResource s)"
  by (simp add: bounded_def)

lemma bounded_ensureMinimum:
  "min_opt opt < max_opt opt \<Longrightarrow> bounded opt s \<Longrightarrow> bounded opt (ensureMinimum opt s)"
  by (auto simp: bounded_def ensureMinimum_def)

lemma bounded_destroy:
  "min_opt opt < max_opt opt \<Longrightarrow> bounded opt s \<Longrightarrow> bounded opt (destroy opt c s)"
  unfolding destroy_def
  by (rule bounded_ensureMinimum) (simp_all add: bounded_def requested_def)

lemma find_valid_preserves:
  assumes step: "\<And>c t. P t \<Longrightarrow> P (destroy opt c t)"
  shows "P s \<Longrightarrow> P (snd (find_valid opt idx len s))"
proof (induction "len - idx" arbitrary: idx s)
  case 0
  then show ?case by (subst find_valid.simps) simp
next
  case (Suc n)
  let ?e = "availableConnections s ! idx"
  have lt: "idx < len" using Suc.hyps(2) by simp
  show ?case
  proof (cases "idx < length (availableConnections s) \<and> \<not> validate opt (connection ?e)")
    case True
    have "P (snd (find_valid opt (Suc idx) len (destroy opt (connection ?e) s)))"
      using Suc.hyps(2) Suc.prems by (intro Suc.hyps(1) step) simp_all
    then show ?thesis
      using True lt by (subst find_valid.simps) (simp add: Let_def)
  next
    case False
    then show ?thesis
      using Suc.prems lt by (subst find_valid.simps) (auto simp: Let_def)
  qed
qed

lemma find_valid_waiting [simp]:
  "waitingClients (snd (find_valid opt idx len s)) = waitingClients s"
  by (rule find_valid_preserves [where P = "\<lambda>t. waitingClients t = waitingClients s"]) simp_all

lemma deliver_fields [simp]:
  "availableConnections (deliver ob v s) = availableConnections s"
  "waitingClients (deliver ob v s) = waitingClients s"
  "totalConnections (deliver ob v s) = totalConnections s"
  "draining (deliver ob v s) = draining s"
  "requested (deliver ob v s) = requested s"
  by (simp_all add: deliver_def split: observer.splits)

lemma dispense_preserves:
  assumes destroy: "\<And>c t. P t \<Longrightarrow> P (destroy opt c t)"
    and create: "\<And>t. P t \<Longrightarrow> totalConnections t < max_opt opt \<Longrightarrow> P (createResource t)"
    and emit: "\<And>t es. P t \<Longrightarrow> FactoryCreate \<notin> set es \<Longrightarrow> P (emit es t)"
    and shift: "\<And>t q. P t \<Longrightarrow> P (t\<lparr> availableConnections := tl (availableConnections t), waitingClients := q \<rparr>)"
    and init: "P s"
  shows "P (snd (dispense opt s))"
proof (cases "length (waitingClients s) > 0")
  case False
  then show ?thesis using init by (simp add: dispense_def)
next
  case True
  let ?r = "find_valid opt 0 (length (availableConnections s)) s"
  have "P (snd ?r)"
    using init by (intro find_valid_preserves [where P = P] destroy)
  moreover obtain r s1 where r: "?r = (r, s1)" by (cases ?r)
  ultimately have p1: "P s1" by simp
  have w1: "waitingClients s1 = waitingClients s"
    using find_valid_waiting [of opt 0 "length (availableConnections s)" s] r by simp
  have grow: "P (if totalConnections t < max_opt opt then createResource t else t)" if "P t" for t
    using that by (simp add: create)
  show ?thesis
  proof (cases r)
    case (Threw x)
    then show ?thesis using True r p1 by (simp add: dispense_def)
  next
    case (Returned found)
    show ?thesis
    proof (cases found)
      case None
      then show ?thesis
        using True r Returned grow [OF p1] by (simp add: dispense_def)
    next
      case (Some validClient)
      have "waitingClients s1 \<noteq> []" using True w1 by simp
      then obtain w q where wq: "waitingClients s1 = w # q"
        unfolding neq_Nil_conv by blast
      let ?s2 = "deliver (fst w) (EntryObj validClient)
                   (s1\<lparr> availableConnections := tl (availableConnections s1), waitingClients := q \<rparr>)"
      have "P ?s2"
        unfolding deliver_def using shift [OF p1, of q] by (cases "fst w") (simp_all add: emit)
      then have "P (if totalConnections ?s2 < max_opt opt then createResource ?s2 else ?s2)"
        by (rule grow)
      then show ?thesis
        using True r Returned Some wq by (simp add: dispense_def Let_def)
    qed
  qed
qed

lemma bounded_dispense:
  assumes "min_opt opt < max_opt opt" "bounded opt s"
  shows "bounded opt (snd (dispense opt s))"
  using assms(2)
  by (rule dispense_preserves [where P = "bounded opt", rotated -1])
     (simp_all add: bounded_destroy assms(1) bounded_createResource, simp_all add: bounded_def requested_def)

lemma scheduleRemoveIdle_fields [simp]:
  "availableConnections (scheduleRemoveIdle s) = availableConnections s"
  "waitingClients (scheduleRemoveIdle s) = waitingClients s"
  "totalConnections (scheduleRemoveIdle s) = totalConnections s"
  "draining (scheduleRemoveIdle s) = draining s"
  "trace (scheduleRemoveIdle s) = trace s"
  by (simp_all add: scheduleRemoveIdle_def)

lemma bounded_scheduleRemoveIdle [simp]: "bounded opt (scheduleRemoveIdle s) = bounded opt s"
  by (simp add: bounded_def requested_def)

lemma release_unfold:
  assumes "\<not> list_ex (\<lambda>e. connection e = c) (availableConnections s)"
    and "dispense opt
           (s\<lparr> availableConnections :=
                 (if returnToHead opt
                  then Entry (nextEntry s) c (now + idleTimeoutMillis opt) # availableConnections s
                  else availableConnections s @ [Entry (nextEntry s) c (now + idleTimeoutMillis opt)]),
               nextEntry := Suc (nextEntry s) \<rparr>) = (r, s2)"
  shows "release opt c now s =
           (case r of Threw x \<Rightarrow> (Threw x, s2) | Returned u \<Rightarrow> (Returned (), scheduleRemoveIdle s2))"
  unfolding release_def Let_def
  by (simp only: assms if_False prod.case)

lemma acquire_unfold:
  assumes "\<not> draining s"
    and "dispense opt
           (s\<lparr> waitingClients :=
                 enqueue ob (max (min (case prio of None \<Rightarrow> priorityRange opt div 2 | Some p \<Rightarrow> p) 0)
                               (priorityRange opt)) (waitingClients s) \<rparr>) = (r, s2)"
  shows "acquire opt ob prio s =
           (case r of Threw x \<Rightarrow> (Threw x, s2)
            | Returned u \<Rightarrow> (Returned (Some (totalConnections s2 < max_opt opt)), s2))"
  unfolding acquire_def Let_def
  by (simp only: assms if_False prod.case)

lemma bounded_release:
  assumes "min_opt opt < max_opt opt" "bounded opt s"
  shows "bounded opt (snd (release opt c now s))"
proof (cases "list_ex (\<lambda>e. connection e = c) (availableConnections s)")
  case True
  then show ?thesis using assms(2) by (simp add: release_def)
next
  case False
  let ?e = "Entry (nextEntry s) c (now + idleTimeoutMillis opt)"
  let ?s1 = "s\<lparr> availableConnections :=
                  (if returnToHead opt then ?e # availableConnections s
                   else availableConnections s @ [?e]),
                nextEntry := Suc (nextEntry s) \<rparr>"
  obtain r s2 where d: "dispense opt ?s1 = (r, s2)" by (cases "dispense opt ?s1")
  have "bounded opt ?s1" using assms(2) by (simp add: bounded_def requested_def)
  then have "bounded opt (snd (dispense opt ?s1))"
    by (rule bounded_dispense [OF assms(1)])
  then have "bounded opt s2" by (simp only: d snd_conv)
  then show ?thesis
    unfolding release_unfold [OF False d] by (cases r) simp_all
qed

lemma bounded_acquire:
  assumes "min_opt opt < max_opt opt" "bounded opt s"
  shows "bounded opt (snd (acquire opt ob prio s))"
proof (cases "draining s")
  case True
  then show ?thesis
    using assms(2) by (simp add: acquire_def bounded_def requested_def split: observer.splits)
next
  case False
  let ?s1 = "s\<lparr> waitingClients :=
                 enqueue ob (max (min (case prio of None \<Rightarrow> priorityRange opt div 2 | Some p \<Rightarrow> p) 0)
                               (priorityRange opt)) (waitingClients s) \<rparr>"
  obtain r s2 where d: "dispense opt ?s1 = (r, s2)" by (cases "dispense opt ?s1")
  have "bounded opt ?s1" using assms(2) by (simp add: bounded_def requested_def)
  then have "bounded opt (snd (dispense opt ?s1))"
    by (rule bounded_dispense [OF assms(1)])
  then have "bounded opt s2" by (simp only: d snd_conv)
  then show ?thesis
    unfolding acquire_unfold [OF False d] by (cases r) simp_all
qed

lemma bounded_createHandler:
  assumes "min_opt opt < max_opt opt" "0 \<le> max_opt opt" "bounded opt s"
  shows "bounded opt (snd (createHandler opt args now s))"
proof -
  define err where "err = handlerErr args"
  define conn where "conn = handlerConnection args"
  define s1 where "s1 = s\<lparr> waitingClients := tl (waitingClients s) \<rparr>"
  define s2 where "s2 = (if truthy err
                then s1\<lparr> totalConnections := max (totalConnections s1 - 1) 0,
                         nextTicks := Suc (nextTicks s1) \<rparr>
                else s1)"
  have b2: "bounded opt s2"
    using assms(2,3) by (auto simp: s2_def s1_def bounded_def requested_def)
  have rel: "bounded opt (snd (release opt conn now s2))"
    using assms(1) b2 by (rule bounded_release)
  have em: "bounded opt (emit es s2)" if "FactoryCreate \<notin> set es" for es
    using b2 that by (simp add: bounded_def filter_empty_conv [THEN iffD2])
  have unfold: "createHandler opt args now s =
      (case (case waitingClients s of [] \<Rightarrow> None | w # q \<Rightarrow> Some (fst w)) of
           Some (Observer i) \<Rightarrow>
             (Returned (),
              if truthy err then emit [OnError i err] s2
              else emit [OnNext i conn, OnCompleted i] s2)
         | Some (Function f) \<Rightarrow>
             (Returned (),
              if truthy err then emit [Invoke f [err]] s2
              else emit [Invoke f [Null, conn]] s2)
         | None \<Rightarrow> release opt conn now s2)"
    by (simp only: createHandler_def Let_def err_def conn_def s1_def s2_def)
  show ?thesis
    unfolding unfold using rel em by (simp split: option.splits observer.splits list.splits)
qed

lemma bounded_fold_destroy:
  "min_opt opt < max_opt opt \<Longrightarrow> bounded opt s \<Longrightarrow> bounded opt (fold (destroy opt) cs s)"
  by (induction cs arbitrary: s) (simp_all add: bounded_destroy)

lemma bounded_removeIdle:
  assumes "min_opt opt < max_opt opt" "bounded opt s"
  shows "bounded opt (removeIdle opt now s)"
proof -
  let ?s0 = "s\<lparr> removeIdleScheduled := False \<rparr>"
  have "bounded opt ?s0" using assms(2) by (simp add: bounded_def requested_def)
  then have "bounded opt (fold (destroy opt) (idleConnections opt now ?s0) ?s0)"
    by (rule bounded_fold_destroy [OF assms(1)])
  then show ?thesis
    using assms(2) by (simp add: removeIdle_def Let_def bounded_def requested_def)
qed

lemma bounded_signal [simp]: "bounded opt (signal ob s) = bounded opt s"
  by (simp add: signal_def bounded_def split: option.splits observer.splits)

lemma bounded_check [simp]: "bounded opt (check ob s) = bounded opt s"
  by (simp add: check_def) (simp add: bounded_def requested_def)

lemma bounded_exec:
  assumes "min_opt opt < max_opt opt" "0 \<le> max_opt opt" "bounded opt s"
  shows "bounded opt (exec opt x s)"
proof (cases x)
  case (Acquire ob prio)
  then show ?thesis using assms by (simp add: bounded_acquire)
next
  case (Release c now)
  then show ?thesis using assms by (simp add: bounded_release)
next
  case (Destroy c)
  then show ?thesis using assms by (simp add: bounded_destroy)
next
  case (Drain ob)
  then show ?thesis using assms(3) by (simp add: drain_def) (simp add: bounded_def requested_def)
next
  case (DestroyAllNow ob)
  then show ?thesis
    using assms(3) by (simp add: destroyAllNow_def split: list.splits) (simp add: bounded_def requested_def)
next
  case (Created args now)
  have "bounded opt (s\<lparr> creating := creating s - 1 \<rparr>)"
    using assms(3) by (simp add: bounded_def requested_def)
  then show ?thesis using Created assms by (simp add: bounded_createHandler)
next
  case NextTick
  have "bounded opt (s\<lparr> nextTicks := nextTicks s - 1 \<rparr>)"
    using assms(3) by (simp add: bounded_def requested_def)
  then show ?thesis using NextTick assms by (simp add: bounded_dispense)
next
  case (Reap now)
  have "bounded opt (s\<lparr> removeIdleTimer := False \<rparr>)"
    using assms(3) by (simp add: bounded_def requested_def)
  then show ?thesis using Reap assms by (simp add: bounded_removeIdle)
next
  case DrainCheck
  then show ?thesis
    using assms(3) by (simp split: list.splits) (simp add: bounded_def requested_def)
qed

lemma bounded_run:
  "min_opt opt < max_opt opt \<Longrightarrow> 0 \<le> max_opt opt \<Longrightarrow> bounded opt s \<Longrightarrow> bounded opt (run opt ops s)"
  unfolding run_def by (induction ops arbitrary: s) (simp_all add: bounded_exec)

lemma mk_options_range: "min_opt (mk_options raw) < max_opt (mk_options raw)" "0 \<le> max_opt (mk_options raw)"
  by (simp_all add: mk_options_def Let_def)

lemma bounded_Pool: "bounded (mk_options raw) (Pool raw)"
  unfolding Pool_def
  by (rule bounded_ensureMinimum) (simp_all add: mk_options_range bounded_def requested_def)

section \<open>The count against the creations that succeeded\<close>

lemma creating_fields [simp]:
  "creating (emit es s) = creating s"
  "creating (createResource s) = Suc (creating s)"
  "creating (deliver ob v s) = creating s"
  "creating (scheduleRemoveIdle s) = creating s"
  "creating (signal ob' s) = creating s"
  "creating (check ob' s) = creating s"
  "totalConnections (signal ob' s) = totalConnections s"
  "totalConnections (check ob' s) = totalConnections s"
  by (simp_all add: emit_def createResource_def deliver_def scheduleRemoveIdle_def signal_def
        check_def split: observer.splits option.splits)

lemma creating_pow [simp]: "creating ((createResource ^^ n) s) = creating s + n"
  by (induction n) simp_all

lemma within_createResource: "within k s \<Longrightarrow> within k (createResource s)"
  by (simp add: within_def)

lemma within_ensureMinimum: "within k s \<Longrightarrow> within k (ensureMinimum opt s)"
  by (simp add: within_def ensureMinimum_def)

lemma within_destroy: "within k s \<Longrightarrow> within k (destroy opt c s)"
  unfolding destroy_def by (rule within_ensureMinimum) (simp add: within_def)

lemma within_dispense: "within k s \<Longrightarrow> within k (snd (dispense opt s))"
  by (rule dispense_preserves [where P = "within k", rotated -1])
     (simp_all add: within_destroy within_createResource, simp_all add: within_def)

lemma within_release:
  assumes "within k s" shows "within k (snd (release opt c now s))"
proof (cases "list_ex (\<lambda>e. connection e = c) (availableConnections s)")
  case True
  then show ?thesis using assms by (simp add: release_def)
next
  case False
  let ?e = "Entry (nextEntry s) c (now + idleTimeoutMillis opt)"
  let ?s1 = "s\<lparr> availableConnections :=
                  (if returnToHead opt then ?e # availableConnections s
                   else availableConnections s @ [?e]),
                nextEntry := Suc (nextEntry s) \<rparr>"
  obtain r s2 where d: "dispense opt ?s1 = (r, s2)" by (cases "dispense opt ?s1")
  have "within k ?s1" using assms by (simp add: within_def)
  then have "within k (snd (dispense opt ?s1))" by (rule within_dispense)
  then have "within k s2" by (simp only: d snd_conv)
  then show ?thesis
    unfolding release_unfold [OF False d] by (cases r) (simp_all add: within_def)
qed

lemma within_acquire:
  assumes "within k s" shows "within k (snd (acquire opt ob prio s))"
proof (cases "draining s")
  case True
  then show ?thesis
    using assms by (simp add: acquire_def within_def split: observer.splits)
next
  case False
  let ?s1 = "s\<lparr> waitingClients :=
                 enqueue ob (max (min (case prio of None \<Rightarrow> priorityRange opt div 2 | Some p \<Rightarrow> p) 0)
                               (priorityRange opt)) (waitingClients s) \<rparr>"
  obtain r s2 where d: "dispense opt ?s1 = (r, s2)" by (cases "dispense opt ?s1")
  have "within k ?s1" using assms by (simp add: within_def)
  then have "within k (snd (dispense opt ?s1))" by (rule within_dispense)
  then have "within k s2" by (simp only: d snd_conv)
  then show ?thesis
    unfolding acquire_unfold [OF False d] by (cases r) simp_all
qed

lemma within_createHandler:
  assumes "creating s > 0" "within k s"
  shows "within (k + (if \<not> truthy (handlerErr args) then 1 else 0))
           (snd (createHandler opt args now (s\<lparr> creating := creating s - 1 \<rparr>)))"
proof -
  define K where "K = k + (if \<not> truthy (handlerErr args) then 1 else 0)"
  define s0 where "s0 = s\<lparr> creating := creating s - 1 \<rparr>"
  define err where "err = handlerErr args"
  define conn where "conn = handlerConnection args"
  define s1 where "s1 = s0\<lparr> waitingClients := tl (waitingClients s0) \<rparr>"
  define s2 where "s2 = (if truthy err
                then s1\<lparr> totalConnections := max (totalConnections s1 - 1) 0,
                         nextTicks := Suc (nextTicks s1) \<rparr>
                else s1)"
  have b2: "within K s2"
    using assms by (auto simp: K_def s2_def s1_def s0_def err_def within_def)
  have rel: "within K (snd (release opt conn now s2))"
    using b2 by (rule within_release)
  have em: "within K (emit es s2)" for es
    using b2 by (simp add: within_def)
  have unfold: "createHandler opt args now s0 =
      (case (case waitingClients s0 of [] \<Rightarrow> None | w # q \<Rightarrow> Some (fst w)) of
           Some (Observer i) \<Rightarrow>
             (Returned (),
              if truthy err then emit [OnError i err] s2
              else emit [OnNext i conn, OnCompleted i] s2)
         | Some (Function f) \<Rightarrow>
             (Returned (),
              if truthy err then emit [Invoke f [err]] s2
              else emit [Invoke f [Null, conn]] s2)
         | None \<Rightarrow> release opt conn now s2)"
    by (simp only: createHandler_def Let_def err_def conn_def s1_def s2_def)
  show ?thesis
    unfolding K_def [symmetric] s0_def [symmetric] unfold
    using rel em by (simp split: option.splits observer.splits list.splits)
qed

lemma within_fold_destroy: "within k s \<Longrightarrow> within k (fold (destroy opt) cs s)"
  by (induction cs arbitrary: s) (simp_all add: within_destroy)

lemma within_removeIdle:
  assumes "within k s" shows "within k (removeIdle opt now s)"
proof -
  let ?s0 = "s\<lparr> removeIdleScheduled := False \<rparr>"
  have "within k ?s0" using assms by (simp add: within_def)
  then have "within k (fold (destroy opt) (idleConnections opt now ?s0) ?s0)"
    by (rule within_fold_destroy)
  then show ?thesis
    using assms by (simp add: removeIdle_def Let_def within_def)
qed

lemma within_exec:
  assumes "within k s"
  shows "within (k + (case x of
             Created args now \<Rightarrow> (if creating s > 0 \<and> \<not> truthy (handlerErr args) then 1 else 0)
           | _ \<Rightarrow> 0)) (exec opt x s)"
proof (cases x)
  case (Created args now)
  show ?thesis
  proof (cases "creating s > 0")
    case True
    with within_createHandler [OF True assms, of args opt now] Created show ?thesis by simp
  next
    case False
    then show ?thesis using Created assms by simp
  qed
next
  case NextTick
  have "within k (s\<lparr> nextTicks := nextTicks s - 1 \<rparr>)" using assms by (simp add: within_def)
  then show ?thesis using NextTick assms by (simp add: within_dispense)
next
  case (Reap now)
  have "within k (s\<lparr> removeIdleTimer := False \<rparr>)" using assms by (simp add: within_def)
  then show ?thesis using Reap assms by (simp add: within_removeIdle)
next
  case (Drain ob)
  then show ?thesis using assms by (simp add: drain_def within_def)
next
  case (DestroyAllNow ob)
  then show ?thesis
    using assms by (simp add: destroyAllNow_def within_def split: list.splits)
next
  case DrainCheck
  then show ?thesis using assms by (simp add: within_def split: list.splits)
qed (use assms in \<open>simp_all add: within_acquire within_release within_destroy\<close>)

lemma within_run:
  "within k s \<Longrightarrow> within (k + succeeded opt ops s) (run opt ops s)"
proof (induction ops arbitrary: k s)
  case Nil
  then show ?case by (simp add: run_def)
next
  case (Cons x xs)
  from Cons.IH [OF within_exec [OF Cons.prems, of x opt]]
  show ?case by (simp add: run_def add.assoc)
qed

lemma within_Pool: "within 0 (Pool raw)"
  by (simp add: Pool_def within_def ensureMinimum_def)

section \<open>No connection is available twice\<close>

lemma unique_dispense: "unique s \<Longrightarrow> unique (snd (dispense opt s))"
  by (rule dispense_preserves [where P = unique, rotated -1])
     (simp_all add: unique_def distinct_map_filter distinct_tl map_tl)

lemma dispense_idle: "waitingClients s = [] \<Longrightarrow> dispense opt s = (Returned (), s)"
  by (simp add: dispense_def)

lemma unique_release:
  assumes "unique s" shows "unique (snd (release opt c now s))"
proof (cases "list_ex (\<lambda>e. connection e = c) (availableConnections s)")
  case True
  then show ?thesis using assms by (simp add: release_def)
next
  case False
  let ?e = "Entry (nextEntry s) c (now + idleTimeoutMillis opt)"
  let ?s1 = "s\<lparr> availableConnections :=
                  (if returnToHead opt then ?e # availableConnections s
                   else availableConnections s @ [?e]),
                nextEntry := Suc (nextEntry s) \<rparr>"
  obtain r s2 where d: "dispense opt ?s1 = (r, s2)" by (cases "dispense opt ?s1")
  have "c \<notin> set (map connection (availableConnections s))"
    using False by (auto simp: list_ex_iff)
  then have "unique ?s1" using assms by (simp add: unique_def)
  then have "unique (snd (dispense opt ?s1))" by (rule unique_dispense)
  then have "unique s2" by (simp only: d snd_conv)
  then show ?thesis
    unfolding release_unfold [OF False d] by (cases r) (simp_all add: unique_def)
qed

lemma unique_destroy: "unique s \<Longrightarrow> unique (destroy opt c s)"
  by (simp add: unique_def distinct_map_filter)

lemma unique_fold_destroy: "unique s \<Longrightarrow> unique (fold (destroy opt) cs s)"
  by (induction cs arbitrary: s) (simp_all add: unique_destroy)

lemma unique_acquire:
  assumes "unique s" shows "unique (snd (acquire opt ob prio s))"
proof (cases "draining s")
  case True
  then show ?thesis
    using assms by (simp add: acquire_def unique_def split: observer.splits)
next
  case False
  let ?s1 = "s\<lparr> waitingClients :=
                 enqueue ob (max (min (case prio of None \<Rightarrow> priorityRange opt div 2 | Some p \<Rightarrow> p) 0)
                               (priorityRange opt)) (waitingClients s) \<rparr>"
  obtain r s2 where d: "dispense opt ?s1 = (r, s2)" by (cases "dispense opt ?s1")
  have "unique ?s1" using assms by (simp add: unique_def)
  then have "unique (snd (dispense opt ?s1))" by (rule unique_dispense)
  then have "unique s2" by (simp only: d snd_conv)
  then show ?thesis
    unfolding acquire_unfold [OF False d] by (cases r) simp_all
qed

lemma unique_createHandler:
  assumes "unique s" shows "unique (snd (createHandler opt args now s))"
proof -
  define s1 where "s1 = s\<lparr> waitingClients := tl (waitingClients s) \<rparr>"
  define s2 where "s2 = (if truthy (handlerErr args)
                then s1\<lparr> totalConnections := max (totalConnections s1 - 1) 0,
                         nextTicks := Suc (nextTicks s1) \<rparr>
                else s1)"
  have u2: "unique s2" using assms by (simp add: s2_def s1_def unique_def)
  have rel: "unique (snd (release opt (handlerConnection args) now s2))"
    using u2 by (rule unique_release)
  have em: "unique (emit es s2)" for es
    using u2 by (simp add: unique_def)
  have "createHandler opt args now s =
      (case (case waitingClients s of [] \<Rightarrow> None | w # q \<Rightarrow> Some (fst w)) of
           Some (Observer i) \<Rightarrow>
             (Returned (),
              if truthy (handlerErr args) then emit [OnError i (handlerErr args)] s2
              else emit [OnNext i (handlerConnection args), OnCompleted i] s2)
         | Some (Function f) \<Rightarrow>
             (Returned (),
              if truthy (handlerErr args) then emit [Invoke f [handlerErr args]] s2
              else emit [Invoke f [Null, handlerConnection args]] s2)
         | None \<Rightarrow> release opt (handlerConnection args) now s2)"
    by (simp only: createHandler_def Let_def s1_def s2_def)
  then show ?thesis
    using rel em by (simp split: option.splits observer.splits list.splits)
qed

lemma unique_removeIdle: "unique s \<Longrightarrow> unique (removeIdle opt now s)"
proof -
  assume u: "unique s"
  let ?s0 = "s\<lparr> removeIdleScheduled := False \<rparr>"
  have "unique ?s0" using u by (simp add: unique_def)
  then have "unique (fold (destroy opt) (idleConnections opt now ?s0) ?s0)"
    by (rule unique_fold_destroy)
  then show ?thesis
    using u by (simp add: removeIdle_def Let_def unique_def)
qed

lemma signal_available [simp]: "availableConnections (signal ob s) = availableConnections s"
  by (simp add: signal_def split: option.splits observer.splits)

lemma check_available [simp]: "availableConnections (check ob s) = availableConnections s"
  by (simp add: check_def)

lemma unique_exec: "unique s \<Longrightarrow> unique (exec opt x s)"
proof (cases x)
  case (Created args now)
  assume "unique s"
  then have "unique (s\<lparr> creating := creating s - 1 \<rparr>)" by (simp add: unique_def)
  then have "unique (snd (createHandler opt args now (s\<lparr> creating := creating s - 1 \<rparr>)))"
    by (rule unique_createHandler)
  then show ?thesis using Created \<open>unique s\<close> by simp
next
  case NextTick
  assume "unique s"
  then have "unique (s\<lparr> nextTicks := nextTicks s - 1 \<rparr>)" by (simp add: unique_def)
  then have "unique (snd (dispense opt (s\<lparr> nextTicks := nextTicks s - 1 \<rparr>)))"
    by (rule unique_dispense)
  then show ?thesis using NextTick \<open>unique s\<close> by simp
next
  case (Reap now)
  assume "unique s"
  then have "unique (s\<lparr> removeIdleTimer := False \<rparr>)" by (simp add: unique_def)
  then have "unique (removeIdle opt now (s\<lparr> removeIdleTimer := False \<rparr>))"
    by (rule unique_removeIdle)
  then show ?thesis using Reap \<open>unique s\<close> by simp
qed (simp_all add: unique_acquire unique_release unique_destroy,
     auto simp: unique_def drain_def destroyAllNow_def split: list.splits)

lemma unique_run: "unique s \<Longrightarrow> unique (run opt ops s)"
  unfolding run_def by (induction ops arbitrary: s) (simp_all add: unique_exec)

lemma unique_Pool: "unique (Pool raw)"
  by (simp add: Pool_def unique_def)

lemma available_distinct:
  "distinct (map connection (availableConnections (run (mk_options raw) ops (Pool raw))))"
  using unique_run [OF unique_Pool] by (simp add: unique_def)

section \<open>What the reaper destroys\<close>

lemma enumerate_nth: "enumerate 0 xs = map (\<lambda>i. (i, xs ! i)) [0..<length xs]"
  by (rule nth_equalityI) (simp_all add: nth_enumerate_eq)

lemma idleConnections_positions:
  "idleConnections opt now s =
     map (\<lambda>i. connection (availableConnections s ! i))
       (filter (\<lambda>i. int i \<le> totalConnections s - min_opt opt
                    \<and> timeout (availableConnections s ! i) < now)
          [0..<length (availableConnections s)])"
  unfolding idleConnections_def enumerate_nth
  by (simp add: filter_map o_def not_less cong: conj_cong)

lemma destroyed_emit [simp]:
  "destroyed (emit es s) = destroyed s @ concat (map (\<lambda>e. case e of FactoryDestroy c \<Rightarrow> [c] | _ \<Rightarrow> []) es)"
  by (simp add: destroyed_def)

lemma destroyed_createResource_pow [simp]: "destroyed ((createResource ^^ n) s) = destroyed s"
  by (induction n) (simp_all add: destroyed_def)

lemma destroyed_destroy [simp]: "destroyed (destroy opt c s) = destroyed s @ [c]"
  by (simp add: destroy_def ensureMinimum_def) (simp add: destroyed_def)

lemma destroyed_fold_destroy [simp]: "destroyed (fold (destroy opt) cs s) = destroyed s @ cs"
  by (induction cs arbitrary: s) simp_all

lemma destroyed_scheduleRemoveIdle [simp]: "destroyed (scheduleRemoveIdle s) = destroyed s"
  by (simp add: destroyed_def)

lemma floor_destroy:
  "\<not> draining s \<Longrightarrow> min_opt opt \<le> totalConnections s \<Longrightarrow>
   \<not> draining (destroy opt c s) \<and> min_opt opt \<le> totalConnections (destroy opt c s)"
  by (simp add: destroy_def ensureMinimum_def)

lemma floor_fold_destroy:
  "\<not> draining s \<Longrightarrow> min_opt opt \<le> totalConnections s \<Longrightarrow>
   \<not> draining (fold (destroy opt) cs s) \<and> min_opt opt \<le> totalConnections (fold (destroy opt) cs s)"
proof (induction cs arbitrary: s)
  case Nil
  then show ?case by simp
next
  case (Cons c cs)
  from floor_destroy [OF Cons.prems, of c] show ?case
    by (simp add: Cons.IH)
qed

section \<open>What destroy and acquire overlook\<close>

text \<open>
  A resource object is never identical to a wrapper, so \<^verbatim>\<open>destroy\<close> of a resource
  leaves the list of available connections as it is. When \<^verbatim>\<open>priorityRange\<close> is not
  negative, the priority stored with a request is \<^verbatim>\<open>priorityRange\<close> whatever the caller
  passed. On a draining pool \<^verbatim>\<open>acquire\<close> reaches a sink with three channels only. The
  default \<^verbatim>\<open>validate\<close> accepts nothing, and \<^verbatim>\<open>destroyAllNow\<close> throws unless the list
  of available connections is empty.
\<close>

lemma destroy_keeps_resource [simp]:
  "availableConnections (destroy opt (Resource n) s) = availableConnections s"
  by simp

lemma acquire_priority_ignored:
  "0 \<le> priorityRange opt \<Longrightarrow> acquire opt ob (Some p) s = acquire opt ob (Some q) s"
  by (simp add: acquire_def max_def min_def)

lemma acquire_draining:
  "draining s \<Longrightarrow>
   acquire opt (Observer i) prio s =
     (Returned None, emit [OnError i (Str ''pool is draining and cannot accept work'')] s)"
  "draining s \<Longrightarrow> acquire opt (Function f) prio s = (Threw TypeError, s)"
  by (simp_all add: acquire_def)

lemma default_validate_false:
  "opts_validate raw = None \<Longrightarrow> validate (mk_options raw) c = False"
  by (simp add: mk_options_def Let_def)

lemma destroyAllNow_nonempty:
  "availableConnections s \<noteq> [] \<Longrightarrow> destroyAllNow ob s = (Threw ReferenceError, s)"
  by (cases "availableConnections s") (simp_all add: destroyAllNow_def)

section \<open>C1: the bound on the count of resources\<close>

text \<open>
  Claim C1, as the code has it. Whatever is done to a pool made by \<^verbatim>\<open>Pool\<close>, in any
  order, the list of available entries has a length of at least zero,
  \<open>totalConnections\<close> is at most \<open>max\<close>, and \<open>totalConnections\<close> is at most the number of
  creations that have succeeded plus the number of creations still in flight:
  \<^verbatim>\<open>createResource\<close> raises the count before the Factory answers, and a failed creation
  lowers it again.
\<close>

theorem totalConnections_bounded:
  "0 \<le> int (length (availableConnections (run (mk_options raw) ops (Pool raw))))
   \<and> totalConnections (run (mk_options raw) ops (Pool raw)) \<le> max_opt (mk_options raw)
   \<and> totalConnections (run (mk_options raw) ops (Pool raw))
       \<le> int (succeeded (mk_options raw) ops (Pool raw))
         + int (creating (run (mk_options raw) ops (Pool raw)))"
  using bounded_run [OF mk_options_range bounded_Pool, of raw ops]
        within_run [OF within_Pool, of "mk_options raw" ops raw]
  by (simp add: bounded_def within_def)

text \<open>
  Claim C1 as the spec words it bounds \<open>totalConnections\<close> by the successful creations
  minus the destructions. After one \<^verbatim>\<open>acquire\<close> on a new pool with the default options
  the count is 1 while no creation has succeeded and nothing has been destroyed: the
  creations in flight have to be counted. And the destructions cannot be taken off: after
  the run \<open>failing_factory\<close> of calls to \<^verbatim>\<open>acquire\<close> and \<^verbatim>\<open>release\<close> one creation has
  succeeded, none is in flight, the Factory's destroy operation has been called twice, and
  the count, which a failed creation does not lower below zero, is 0.
\<close>

theorem totalConnections_exceeds_succeeded:
  "totalConnections (run (mk_options no_opts) [Acquire (Observer 1) None] (Pool no_opts)) = 1
   \<and> succeeded (mk_options no_opts) [Acquire (Observer 1) None] (Pool no_opts) = 0
   \<and> destroyed (run (mk_options no_opts) [Acquire (Observer 1) None] (Pool no_opts)) = []
   \<and> \<not> totalConnections (run (mk_options no_opts) [Acquire (Observer 1) None] (Pool no_opts))
         \<le> int (succeeded (mk_options no_opts) [Acquire (Observer 1) None] (Pool no_opts))
           - int (length (destroyed (run (mk_options no_opts) [Acquire (Observer 1) None] (Pool no_opts))))
   \<and> totalConnections (run (mk_options no_opts) failing_factory (Pool no_opts)) = 0
   \<and> succeeded (mk_options no_opts) failing_factory (Pool no_opts) = 1
   \<and> creating (run (mk_options no_opts) failing_factory (Pool no_opts)) = 0
   \<and> destroyed (run (mk_options no_opts) failing_factory (Pool no_opts))
       = [Resource 1, Resource 1]
   \<and> \<not> totalConnections (run (mk_options no_opts) failing_factory (Pool no_opts))
         \<le> int (succeeded (mk_options no_opts) failing_factory (Pool no_opts))
           + int (creating (run (mk_options no_opts) failing_factory (Pool no_opts)))
           - int (length (destroyed (run (mk_options no_opts) failing_factory (Pool no_opts))))"
  by code_simp

section \<open>C2: the order of service\<close>

text \<open>
  Claim C2 says that of two pending requests the one with the lower priority value is
  served first. In the code both requests are stored with the priority 10 (the value of
  \<^verbatim>\<open>priorityRange\<close>), the request of priority 5 that arrived first stays in front of the
  request of priority 1, and when the resource comes back it goes to the former.
\<close>

theorem priority_not_honoured:
  "waitingClients two_waiting = [(Observer 1, 10), (Observer 2, 10)]
   \<and> waitingClients (snd (release (mk_options one_opts) (Resource 1) 0 two_waiting))
       = [(Observer 2, 10)]
   \<and> trace (snd (release (mk_options one_opts) (Resource 1) 0 two_waiting))
       = trace two_waiting @ [OnNext 1 (EntryObj (Entry 0 (Resource 1) 30000)), OnCompleted 1]"
  by code_simp

section \<open>C3: what the dispatcher hands out\<close>

text \<open>
  Claim C3 says that the dispatcher removes the first entry that passes \<^verbatim>\<open>validate\<close>,
  hands its resource to the request, and removes the entries that fail. In the code, with
  the resources 1 (rejected) and 2 (accepted) available, an \<^verbatim>\<open>acquire\<close> passes the
  resource 1 to the Factory's destroy operation, hands the wrapper object of the resource 2
  to the request, and leaves that wrapper in the list: the entry dropped is the head.
\<close>

theorem dispense_hands_out_wrapper:
  "availableConnections two_idle_picky = [Entry 0 (Resource 1) 30000, Entry 1 (Resource 2) 30000]
   \<and> validate (mk_options picky_opts) (Resource 1) = False
   \<and> validate (mk_options picky_opts) (Resource 2) = True
   \<and> availableConnections (snd (acquire (mk_options picky_opts) (Function 3) None two_idle_picky))
       = [Entry 1 (Resource 2) 30000]
   \<and> trace (snd (acquire (mk_options picky_opts) (Function 3) None two_idle_picky))
       = trace two_idle_picky @
         [FactoryDestroy (Resource 1), Invoke 3 [Null, EntryObj (Entry 1 (Resource 2) 30000)],
          FactoryCreate]"
  by code_simp

section \<open>C4: destroy\<close>

text \<open>
  Claim C4 says that after \<^verbatim>\<open>destroy(r)\<close> the resource \<open>r\<close> is no longer among the
  available entries. In the code the entry of the resource 1 is still there after
  \<^verbatim>\<open>destroy\<close> has passed the resource to the Factory and lowered the count from 2 to 1.
\<close>

theorem destroy_leaves_entry:
  "availableConnections one_idle = [Entry 0 (Resource 1) 30000]
   \<and> totalConnections one_idle = 2
   \<and> availableConnections (destroy (mk_options two_opts) (Resource 1) one_idle)
       = [Entry 0 (Resource 1) 30000]
   \<and> destroyed (destroy (mk_options two_opts) (Resource 1) one_idle) = [Resource 1]
   \<and> totalConnections (destroy (mk_options two_opts) (Resource 1) one_idle) = 1"
  by code_simp

section \<open>C5: the default validate\<close>

text \<open>
  Claim C5 says that without a \<^verbatim>\<open>validate\<close> option no available resource is rejected.
  In the code the default \<^verbatim>\<open>validate\<close> yields a false value for the resource 1, and an
  \<^verbatim>\<open>acquire\<close> on a pool that holds it idle passes it to the Factory's destroy operation
  and leaves the request waiting.
\<close>

theorem default_validate_rejects:
  "validate (mk_options no_opts) (Resource 1) = False
   \<and> availableConnections default_idle = [Entry 0 (Resource 1) 30000]
   \<and> destroyed default_idle = []
   \<and> destroyed (snd (acquire (mk_options no_opts) (Observer 2) None default_idle)) = [Resource 1]
   \<and> waitingClients (snd (acquire (mk_options no_opts) (Observer 2) None default_idle))
       = [(Observer 2, 10)]"
  by code_simp

section \<open>C6: the reaper\<close>

text \<open>
  Claim C6, as the code has it. A sweep with \<^verbatim>\<open>refreshIdle\<close> true passes to
  \<^verbatim>\<open>destroy\<close>, in order, the connections of exactly the entries at a position \<open>i\<close> with
  \<open>i \<le> totalConnections - min\<close> (the count as the sweep begins) whose deadline is
  earlier than the current time. When the pool is not draining and the count is at least
  \<open>min\<close> before the sweep, it is at least \<open>min\<close> after it.
\<close>

theorem removeIdle_destroys:
  "(refreshIdle opt \<longrightarrow>
      destroyed (removeIdle opt now s) =
        destroyed s @
        map (\<lambda>i. connection (availableConnections s ! i))
          (filter (\<lambda>i. int i \<le> totalConnections s - min_opt opt
                       \<and> timeout (availableConnections s ! i) < now)
             [0..<length (availableConnections s)]))
   \<and> (\<not> draining s \<and> min_opt opt \<le> totalConnections s \<longrightarrow>
      min_opt opt \<le> totalConnections (removeIdle opt now s))"
proof (intro conjI impI)
  assume r: "refreshIdle opt"
  let ?s0 = "s\<lparr> removeIdleScheduled := False \<rparr>"
  have "destroyed (removeIdle opt now s) = destroyed ?s0 @ idleConnections opt now ?s0"
    using r by (simp add: removeIdle_def Let_def)
  also have "destroyed ?s0 = destroyed s" by (simp add: destroyed_def)
  also have "idleConnections opt now ?s0 = idleConnections opt now s"
    by (simp add: idleConnections_def)
  finally show "destroyed (removeIdle opt now s) =
        destroyed s @
        map (\<lambda>i. connection (availableConnections s ! i))
          (filter (\<lambda>i. int i \<le> totalConnections s - min_opt opt
                       \<and> timeout (availableConnections s ! i) < now)
             [0..<length (availableConnections s)])"
    by (simp only: idleConnections_positions)
next
  assume a: "\<not> draining s \<and> min_opt opt \<le> totalConnections s"
  let ?s0 = "s\<lparr> removeIdleScheduled := False \<rparr>"
  have "min_opt opt \<le> totalConnections (fold (destroy opt) (idleConnections opt now ?s0) ?s0)"
    using a by (intro floor_fold_destroy [THEN conjunct2]) simp_all
  then show "min_opt opt \<le> totalConnections (removeIdle opt now s)"
    using a by (simp add: removeIdle_def Let_def)
qed

theorem removeIdle_destroys_witness:
  "refreshIdle (mk_options two_opts)
   \<and> destroyed (removeIdle (mk_options two_opts) 40000 one_idle) = destroyed one_idle @ [Resource 1]
   \<and> \<not> draining one_idle
   \<and> min_opt (mk_options two_opts) \<le> totalConnections one_idle
   \<and> min_opt (mk_options two_opts) \<le> totalConnections (removeIdle (mk_options two_opts) 40000 one_idle)"
proof -
  have r: "refreshIdle (mk_options two_opts)" by code_simp
  have d: "\<not> draining one_idle" by code_simp
  have m: "min_opt (mk_options two_opts) \<le> totalConnections one_idle" by code_simp
  have "map (\<lambda>i. connection (availableConnections one_idle ! i))
          (filter (\<lambda>i. int i \<le> totalConnections one_idle - min_opt (mk_options two_opts)
                       \<and> timeout (availableConnections one_idle ! i) < 40000)
             [0..<length (availableConnections one_idle)]) = [Resource 1]"
    by code_simp
  with removeIdle_destroys [of "mk_options two_opts" 40000 one_idle] r d m
  show ?thesis by simp
qed

text \<open>
  Claim C6 as the spec words it has an entry evicted only at a position
  \<open>i \<ge> totalConnections - min\<close>, and the count never below \<open>min\<close> after a sweep. With
  one idle resource of two (\<open>min\<close> 0) the entry at position 0 is destroyed though
  \<open>totalConnections - min\<close> is 2; and a draining pool with \<open>min\<close> 1 and two idle
  resources is left with a count of 0.
\<close>

theorem removeIdle_low_position:
  "availableConnections one_idle = [Entry 0 (Resource 1) 30000]
   \<and> totalConnections one_idle - min_opt (mk_options two_opts) = 2
   \<and> \<not> (int 0 \<ge> totalConnections one_idle - min_opt (mk_options two_opts))
   \<and> timeout (availableConnections one_idle ! 0) < 40000
   \<and> destroyed one_idle = []
   \<and> destroyed (exec (mk_options two_opts) (Reap 40000) one_idle) = [Resource 1]
   \<and> min_opt (mk_options floor_opts) = 1
   \<and> totalConnections draining_floor = 2
   \<and> totalConnections (exec (mk_options floor_opts) (Reap 40000) draining_floor) = 0"
  by code_simp

section \<open>C7: destroyAllNow\<close>

text \<open>
  Claim C7 says that \<^verbatim>\<open>destroyAllNow\<close> on a pool with two available resources and
  \<^verbatim>\<open>min\<close> 0 destroys both, leaves a count of 0, cancels the reaper and signals the sink.
  In the code the call throws a ReferenceError: nothing is destroyed, the count is still 2,
  the timer is still pending and the sink hears nothing.
\<close>

theorem destroyAllNow_throws:
  "availableConnections two_idle = [Entry 0 (Resource 1) 30000, Entry 1 (Resource 2) 30000]
   \<and> min_opt (mk_options two_opts) = 0
   \<and> draining two_idle = False
   \<and> fst (destroyAllNow (Some (Observer 9)) two_idle) = Threw ReferenceError
   \<and> totalConnections (snd (destroyAllNow (Some (Observer 9)) two_idle)) = 2
   \<and> length (availableConnections (snd (destroyAllNow (Some (Observer 9)) two_idle))) = 2
   \<and> destroyed (snd (destroyAllNow (Some (Observer 9)) two_idle)) = []
   \<and> removeIdleTimer (snd (destroyAllNow (Some (Observer 9)) two_idle)) = True
   \<and> trace (snd (destroyAllNow (Some (Observer 9)) two_idle)) = trace two_idle"
  by code_simp

section \<open>C8: operations that throw\<close>

text \<open>
  Claim C8 says that no operation of the interface throws, apart from \<^verbatim>\<open>acquire\<close> on a
  draining pool, and that the queries return the counts. In the code the query for the
  number of available resources throws a TypeError on a new pool, and \<^verbatim>\<open>destroyAllNow\<close>
  throws a ReferenceError on a pool that holds an idle resource.
\<close>

theorem queries_throw:
  "availableConnectionsCount (Pool no_opts) = Threw TypeError
   \<and> availableConnections one_idle = [Entry 0 (Resource 1) 30000]
   \<and> fst (destroyAllNow None one_idle) = Threw ReferenceError"
  by code_simp

section \<open>C9: acquire on a draining pool\<close>

text \<open>
  Claim C9 says that on a draining pool \<^verbatim>\<open>acquire\<close> delivers the draining error through
  the error channel of a sink of either shape. In the code a sink that is a plain function
  receives nothing: the call throws a TypeError. A sink with three channels receives the
  error. Neither call changes the queue, the list or the count.
\<close>

theorem acquire_draining_function_throws:
  "draining drained = True
   \<and> fst (acquire (mk_options no_opts) (Function 1) None drained) = Threw TypeError
   \<and> trace (snd (acquire (mk_options no_opts) (Function 1) None drained)) = trace drained
   \<and> trace (snd (acquire (mk_options no_opts) (Observer 1) None drained))
       = trace drained @ [OnError 1 (Str ''pool is draining and cannot accept work'')]"
  by code_simp

section \<open>C10: releasing twice\<close>

text \<open>
  Claim C10. A \<^verbatim>\<open>release\<close> of a connection that an available entry already holds
  returns at once and changes nothing: no entry, no dispatch, no timer, no call to a
  collaborator. When nobody is waiting, the second of two releases of a connection in a
  row is such a call. And whenever the available connections are pairwise distinct, they
  still are after two releases of the same connection in a row.
\<close>

theorem release_twice:
  "(list_ex (\<lambda>e. connection e = c) (availableConnections s) \<longrightarrow>
      release opt c now s = (Returned (), s))
   \<and> (waitingClients s = [] \<longrightarrow>
      release opt c later (snd (release opt c now s)) = (Returned (), snd (release opt c now s)))
   \<and> (distinct (map connection (availableConnections s)) \<longrightarrow>
      distinct (map connection
        (availableConnections (snd (release opt c later (snd (release opt c now s)))))))"
proof (intro conjI impI)
  assume "list_ex (\<lambda>e. connection e = c) (availableConnections s)"
  then show "release opt c now s = (Returned (), s)" by (simp add: release_def)
next
  assume idle: "waitingClients s = []"
  have "list_ex (\<lambda>e. connection e = c) (availableConnections (snd (release opt c now s)))"
    using idle by (simp add: release_def Let_def dispense_idle)
  then show "release opt c later (snd (release opt c now s)) = (Returned (), snd (release opt c now s))"
    by (simp add: release_def)
next
  assume "distinct (map connection (availableConnections s))"
  then have "unique s" by (simp add: unique_def)
  then have "unique (snd (release opt c later (snd (release opt c now s))))"
    by (intro unique_release)
  then show "distinct (map connection
        (availableConnections (snd (release opt c later (snd (release opt c now s))))))"
    by (simp add: unique_def)
qed

theorem release_twice_witness:
  "list_ex (\<lambda>e. connection e = Resource 1) (availableConnections one_idle)
   \<and> release (mk_options two_opts) (Resource 1) 7 one_idle = (Returned (), one_idle)
   \<and> waitingClients one_idle = []
   \<and> release (mk_options two_opts) (Resource 2) 9
        (snd (release (mk_options two_opts) (Resource 2) 7 one_idle))
       = (Returned (), snd (release (mk_options two_opts) (Resource 2) 7 one_idle))
   \<and> distinct (map connection (availableConnections one_idle))
   \<and> distinct (map connection (availableConnections
        (snd (release (mk_options two_opts) (Resource 2) 9
           (snd (release (mk_options two_opts) (Resource 2) 7 one_idle))))))"
proof -
  have p: "list_ex (\<lambda>e. connection e = Resource 1) (availableConnections one_idle)" by code_simp
  have w: "waitingClients one_idle = []" by code_simp
  have d: "distinct (map connection (availableConnections one_idle))" by code_simp
  from release_twice [of "Resource 1" one_idle "mk_options two_opts" 7 9]
       release_twice [of "Resource 2" one_idle "mk_options two_opts" 7 9] p w d
  show ?thesis by blast
qed

end
